theory Spec2Isabelle
  imports
    Main
    "HOL-Library.List_Lexorder"
    "HOL-Library.Multiset"
begin

section \<open>Strings of the page script\<close>

text \<open>
  A string of the script is a sequence of UTF-16 code units. A code unit is a number (below
  65536; no definition here needs the bound), and a string is the list of its code units.
  With the lexicographic order on lists, \<open><\<close> compares code units from the left, with a
  proper prefix smaller, which is how the script's \<^verbatim>\<open><\<close> and \<^verbatim>\<open>>\<close> compare two
  strings.
\<close>

type_synonym jsstring = "nat list"

text \<open>A literal of the script that is written in ASCII: one code unit for each character.\<close>

definition js :: "string \<Rightarrow> jsstring" where
  "js s = map of_char s"

text \<open>
  \<^verbatim>\<open>String.prototype.trim\<close> removes white space and line terminators from both ends.
  These are the code units U+0009 to U+000D, U+0020, U+00A0, U+1680, U+2000 to U+200A,
  U+2028, U+2029, U+202F, U+205F, U+3000 and U+FEFF: tab, line feed, vertical tab, form
  feed, carriage return, the characters of the category of space separators, the line and
  paragraph separators and the byte order mark. None of them is half of a surrogate pair,
  so removing code units is removing characters.
\<close>

definition isWhiteSpace :: "nat \<Rightarrow> bool" where
  "isWhiteSpace u \<longleftrightarrow>
     (0x0009 \<le> u \<and> u \<le> 0x000D) \<or> u = 0x0020 \<or> u = 0x00A0 \<or> u = 0x1680
     \<or> (0x2000 \<le> u \<and> u \<le> 0x200A) \<or> u = 0x2028 \<or> u = 0x2029 \<or> u = 0x202F
     \<or> u = 0x205F \<or> u = 0x3000 \<or> u = 0xFEFF"

definition trim :: "jsstring \<Rightarrow> jsstring" where
  "trim s = rev (dropWhile isWhiteSpace (rev (dropWhile isWhiteSpace s)))"

text \<open>
  \<^verbatim>\<open>String.prototype.toUpperCase\<close> follows the case tables of the Unicode standard, which
  are not part of the script. In every definition below that calls it, it is the parameter
  \<open>toUpperCase\<close>, and what is proved holds for every function in its place. The examples
  need one function to compute with: \<open>toUpperLatin1\<close> is the mapping of the standard on
  text whose code units are below 256 (Basic Latin and Latin-1 Supplement). There the
  letters a to z and the letters U+00E0 to U+00FE without the division sign U+00F7 go to
  the code unit 32 below; the sharp s U+00DF goes to the two letters SS, the micro sign
  U+00B5 to the Greek capital U+039C and the y with diaeresis U+00FF to U+0178; every other
  code unit stays.
\<close>

definition toUpperUnit :: "nat \<Rightarrow> jsstring" where
  "toUpperUnit u =
     (if 0x61 \<le> u \<and> u \<le> 0x7A then [u - 0x20]
      else if u = 0xB5 then [0x039C]
      else if u = 0xDF then [0x53, 0x53]
      else if (0xE0 \<le> u \<and> u \<le> 0xF6) \<or> (0xF8 \<le> u \<and> u \<le> 0xFE) then [u - 0x20]
      else if u = 0xFF then [0x0178]
      else [u])"

definition toUpperLatin1 :: "jsstring \<Rightarrow> jsstring" where
  "toUpperLatin1 s = concat (map toUpperUnit s)"

section \<open>Arrays of the page script\<close>

text \<open>
  \<^verbatim>\<open>Array.prototype.findIndex\<close>: the index of the first element that satisfies the
  predicate, \<open>-1\<close> when there is none. \<open>findIndexFrom\<close> is the loop, at index \<open>i\<close>.
\<close>

fun findIndexFrom :: "('a \<Rightarrow> bool) \<Rightarrow> int \<Rightarrow> 'a list \<Rightarrow> int" where
  "findIndexFrom p i [] = - 1"
| "findIndexFrom p i (x # xs) = (if p x then i else findIndexFrom p (i + 1) xs)"

definition findIndex :: "('a \<Rightarrow> bool) \<Rightarrow> 'a list \<Rightarrow> int" where
  "findIndex p xs = findIndexFrom p 0 xs"

text \<open>
  \<^verbatim>\<open>Array.prototype.splice(start, deleteCount)\<close> with no items to insert, for a start
  index that is not negative (the only use, guarded by the test against \<open>-1\<close>).
\<close>

definition splice :: "nat \<Rightarrow> nat \<Rightarrow> 'a list \<Rightarrow> 'a list" where
  "splice start deleteCount xs = take start xs @ drop (start + deleteCount) xs"

text \<open>
  \<^verbatim>\<open>Array.prototype.sort(compareFn)\<close>. The language standard asks for a stable sort:
  with a comparator that is a consistent ordering, the result is the one arrangement that
  is ordered by the comparator and keeps elements that compare as equal in their input
  order. Insertion from the right computes it: an element goes before the first element of
  the sorted rest that it does not compare greater than.
\<close>

fun insertBy :: "('a \<Rightarrow> 'a \<Rightarrow> int) \<Rightarrow> 'a \<Rightarrow> 'a list \<Rightarrow> 'a list" where
  "insertBy cmp x [] = [x]"
| "insertBy cmp x (y # ys) = (if cmp x y \<le> 0 then x # y # ys else y # insertBy cmp x ys)"

definition arraySort :: "('a \<Rightarrow> 'a \<Rightarrow> int) \<Rightarrow> 'a list \<Rightarrow> 'a list" where
  "arraySort cmp xs = foldr (insertBy cmp) xs []"


section \<open>Books and the page state\<close>

record book =
  title :: jsstring
  author :: jsstring
  category :: jsstring
  imageUrl :: jsstring

definition DEFAULT_IMAGE_URL :: jsstring where
  "DEFAULT_IMAGE_URL = js ''https://m.media-amazon.com/images/I/71ZB18P3inl._SY522_.jpg''"

text \<open>
  What the script keeps in the document: the \<^verbatim>\<open>data-sort-order\<close> attribute of the sort
  button (\<open>None\<close> when the attribute is absent, as \<^verbatim>\<open>getAttribute\<close> then gives
  \<^verbatim>\<open>null\<close>), the button's text, the value of the category filter, and the cards of the
  grid, each with its \<^verbatim>\<open>data-index\<close> and the book it shows.
\<close>

record document =
  sortOrder :: "jsstring option"
  sortText :: jsstring
  filterValue :: jsstring
  bookGrid :: "(nat \<times> book) list"

text \<open>The page state: the document and the global array \<^verbatim>\<open>bookData\<close>.\<close>

record state = document +
  bookData :: "book list"

text \<open>A value of the attribute is truthy when it is a string that is not empty.\<close>

fun truthy :: "jsstring option \<Rightarrow> bool" where
  "truthy None = False"
| "truthy (Some s) = (s \<noteq> [])"

section \<open>The view pipeline\<close>

text \<open>The comparator that \<^verbatim>\<open>getProcessedBooks\<close> hands to \<^verbatim>\<open>sort\<close>.\<close>

definition compareTitles ::
  "(jsstring \<Rightarrow> jsstring) \<Rightarrow> jsstring option \<Rightarrow> book \<Rightarrow> book \<Rightarrow> int" where
  "compareTitles toUpperCase order a b =
     (let titleA = toUpperCase (title a); titleB = toUpperCase (title b) in
      if titleA < titleB then (if order = Some (js ''asc'') then - 1 else 1)
      else if titleA > titleB then (if order = Some (js ''asc'') then 1 else - 1)
      else 0)"

definition getProcessedBooks :: "(jsstring \<Rightarrow> jsstring) \<Rightarrow> state \<Rightarrow> book list" where
  "getProcessedBooks toUpperCase st =
     (let books = bookData st;
          selectedCategory = filterValue st;
          books = (if selectedCategory \<noteq> js ''All''
                   then filter (\<lambda>book. category book = selectedCategory) books
                   else books);
          order = sortOrder st
      in if truthy order then arraySort (compareTitles toUpperCase order) books else books)"

text \<open>One card for each book, numbered by its position in the list that is drawn.\<close>

definition renderBooks :: "book list \<Rightarrow> (nat \<times> book) list" where
  "renderBooks books = zip [0 ..< length books] books"

definition updateDisplay :: "(jsstring \<Rightarrow> jsstring) \<Rightarrow> state \<Rightarrow> state" where
  "updateDisplay toUpperCase st =
     st\<lparr>bookGrid := renderBooks (getProcessedBooks toUpperCase st)\<rparr>"

section \<open>The event handlers\<close>

text \<open>
  The arguments of \<open>handleAddBook\<close> after the case mapping are the values of the three
  form fields at the time of the submit event.
\<close>

definition handleAddBook ::
  "(jsstring \<Rightarrow> jsstring) \<Rightarrow> jsstring \<Rightarrow> jsstring \<Rightarrow> jsstring \<Rightarrow> state \<Rightarrow> state" where
  "handleAddBook toUpperCase titleValue authorValue categoryValue st =
     (let newBook = \<lparr>title = trim titleValue, author = trim authorValue,
                      category = categoryValue, imageUrl = DEFAULT_IMAGE_URL\<rparr>
      in updateDisplay toUpperCase (st\<lparr>bookData := bookData st @ [newBook]\<rparr>))"

text \<open>
  The two captions of the sort button. Their arrow is the one code unit U+2192.
\<close>

definition labelAscending :: jsstring where
  "labelAscending = js ''Sort by Title A '' @ [0x2192] @ js '' Z''"

definition labelDescending :: jsstring where
  "labelDescending = js ''Sort by Title Z '' @ [0x2192] @ js '' A''"

definition handleSort :: "(jsstring \<Rightarrow> jsstring) \<Rightarrow> state \<Rightarrow> state" where
  "handleSort toUpperCase st =
     (let currentOrder = sortOrder st;
          (newOrder, newText) =
            (if currentOrder = Some (js ''asc'') then (js ''desc'', labelDescending)
             else (js ''asc'', labelAscending))
      in updateDisplay toUpperCase (st\<lparr>sortOrder := Some newOrder, sortText := newText\<rparr>))"

text \<open>
  The arguments of \<open>handleDelete\<close> after the case mapping are the two strings the
  handler reads back from the card of the button that was clicked: the text of its heading
  and the text of its author line without the leading \<^verbatim>\<open>Author: \<close>.
\<close>

definition handleDelete ::
  "(jsstring \<Rightarrow> jsstring) \<Rightarrow> jsstring \<Rightarrow> jsstring \<Rightarrow> state \<Rightarrow> state" where
  "handleDelete toUpperCase bookTitle bookAuthor st =
     (let mainIndex = findIndex (\<lambda>book. title book = bookTitle \<and> author book = bookAuthor)
                        (bookData st)
      in if mainIndex \<noteq> - 1
         then updateDisplay toUpperCase
                (st\<lparr>bookData := splice (nat mainIndex) 1 (bookData st)\<rparr>)
         else st)"

text \<open>
  A change of the category filter: the browser has set the value of the control, the
  listener is \<^verbatim>\<open>updateDisplay\<close>.
\<close>

definition handleFilterChange :: "(jsstring \<Rightarrow> jsstring) \<Rightarrow> jsstring \<Rightarrow> state \<Rightarrow> state" where
  "handleFilterChange toUpperCase selected st =
     updateDisplay toUpperCase (st\<lparr>filterValue := selected\<rparr>)"

text \<open>
  The events of the page, one for each listener the script registers: the submit of the
  add form, the click on the sort button, the click on the delete button of a card, and
  the change of the category filter. Each handler runs to its end before the next event.
\<close>

datatype event =
  Submit jsstring jsstring jsstring
| ClickSort
| ClickDelete jsstring jsstring
| ChangeFilter jsstring

fun handleEvent :: "(jsstring \<Rightarrow> jsstring) \<Rightarrow> event \<Rightarrow> state \<Rightarrow> state" where
  "handleEvent toUpperCase (Submit t a c) st = handleAddBook toUpperCase t a c st"
| "handleEvent toUpperCase ClickSort st = handleSort toUpperCase st"
| "handleEvent toUpperCase (ClickDelete t a) st = handleDelete toUpperCase t a st"
| "handleEvent toUpperCase (ChangeFilter c) st = handleFilterChange toUpperCase c st"

fun runEvents :: "(jsstring \<Rightarrow> jsstring) \<Rightarrow> event list \<Rightarrow> state \<Rightarrow> state" where
  "runEvents toUpperCase [] st = st"
| "runEvents toUpperCase (e # es) st = runEvents toUpperCase es (handleEvent toUpperCase e st)"

text \<open>
  Modelled from the spec: the page's markup is not among the sources. The store is created
  empty (the script's first line); the sort state starts unset and the filter at the
  sentinel \<^verbatim>\<open>All\<close>; the first caption of the sort button is a parameter.
\<close>

definition initialState :: "jsstring \<Rightarrow> state" where
  "initialState caption =
     \<lparr>sortOrder = None, sortText = caption, filterValue = js ''All'', bookGrid = [],
      bookData = []\<rparr>"

section \<open>The view pipeline over the heap\<close>

text \<open>
  In the script an array is an object on the heap and a book is an object that arrays
  refer to. To see which array each statement of \<^verbatim>\<open>getProcessedBooks\<close> writes, the heap
  is made explicit: \<open>arrays\<close> holds the array objects by address, each a list of references
  into \<open>objects\<close>, and \<open>bookDataRef\<close> is the array that the variable \<^verbatim>\<open>bookData\<close>
  refers to. A new array gets the next address.
\<close>

record machine = document +
  arrays :: "nat list list"
  objects :: "book list"
  bookDataRef :: nat

definition allocArray :: "nat list \<Rightarrow> machine \<Rightarrow> nat \<times> machine" where
  "allocArray elems m = (length (arrays m), m\<lparr>arrays := arrays m @ [elems]\<rparr>)"

text \<open>
  The spread \<^verbatim>\<open>[...bookData]\<close> and \<^verbatim>\<open>filter\<close> each make a new array of the same
  references; \<^verbatim>\<open>sort\<close> reorders the array it is called on, in place. The result is the
  address of the array that the local variable \<^verbatim>\<open>books\<close> refers to at the end.
\<close>

definition getProcessedBooksHeap :: "(jsstring \<Rightarrow> jsstring) \<Rightarrow> machine \<Rightarrow> nat \<times> machine" where
  "getProcessedBooksHeap toUpperCase m0 =
     (let (books, m) = allocArray (arrays m0 ! bookDataRef m0) m0;
          selectedCategory = filterValue m;
          (books, m) =
            (if selectedCategory \<noteq> js ''All''
             then allocArray
                    (filter (\<lambda>r. category (objects m ! r) = selectedCategory) (arrays m ! books)) m
             else (books, m));
          order = sortOrder m;
          m = (if truthy order
               then m\<lparr>arrays := (arrays m)
                      [books := arraySort
                                  (\<lambda>a b. compareTitles toUpperCase order (objects m ! a) (objects m ! b))
                                  (arrays m ! books)]\<rparr>
               else m)
      in (books, m))"

text \<open>The books an array holds, and the page state that a heap stands for.\<close>

definition readArray :: "machine \<Rightarrow> nat \<Rightarrow> book list" where
  "readArray m a = map (\<lambda>r. objects m ! r) (arrays m ! a)"

definition pageOf :: "machine \<Rightarrow> state" where
  "pageOf m =
     \<lparr>sortOrder = sortOrder m, sortText = sortText m, filterValue = filterValue m,
      bookGrid = bookGrid m, bookData = readArray m (bookDataRef m)\<rparr>"

section \<open>Sample data\<close>

text \<open>The three books of the worked scenario, as the add form receives them.\<close>

definition addDune :: event where
  "addDune = Submit (js ''Dune'') (js ''Frank Herbert'') (js ''Technical'')"

definition addCleanCode :: event where
  "addCleanCode = Submit (js ''Clean Code'') (js ''Robert Martin'') (js ''Technical'')"

definition addCalvin :: event where
  "addCalvin = Submit (js ''Calvin and Hobbes'') (js ''Bill Watterson'') (js ''Comedy'')"

definition mkBook :: "string \<Rightarrow> string \<Rightarrow> string \<Rightarrow> book" where
  "mkBook t a c = \<lparr>title = js t, author = js a, category = js c, imageUrl = DEFAULT_IMAGE_URL\<rparr>"

text \<open>
  A shelf with two copies of one book and a third whose title differs from theirs by case
  only, sorted ascending and unfiltered.
\<close>

definition sampleShelf :: state where
  "sampleShelf =
     \<lparr>sortOrder = Some (js ''asc''), sortText = labelAscending, filterValue = js ''All'',
      bookGrid = [],
      bookData = [mkBook ''dune'' ''F. Herbert'' ''Comedy'',
                  mkBook ''Clean Code'' ''Robert Martin'' ''Technical'',
                  mkBook ''Dune'' ''Frank Herbert'' ''Technical'',
                  mkBook ''Clean Code'' ''Robert Martin'' ''Technical'']\<rparr>"

text \<open>
  A shelf of two books whose titles begin with letters outside ASCII: O with diaeresis
  (U+00D6) followed by l, and a with diaeresis (U+00E4) followed by ther.
\<close>

definition umlautShelf :: state where
  "umlautShelf =
     \<lparr>sortOrder = Some (js ''asc''), sortText = labelAscending, filterValue = js ''All'',
      bookGrid = [],
      bookData = [\<lparr>title = 0xD6 # js ''l'', author = js ''A'', category = js ''Comedy'',
                   imageUrl = DEFAULT_IMAGE_URL\<rparr>,
                  \<lparr>title = 0xE4 # js ''ther'', author = js ''B'', category = js ''Comedy'',
                   imageUrl = DEFAULT_IMAGE_URL\<rparr>]\<rparr>"

text \<open>A heap for the sample shelf: four book objects and the one array that is the store.\<close>

definition sampleHeap :: machine where
  "sampleHeap =
     \<lparr>sortOrder = Some (js ''asc''), sortText = labelAscending, filterValue = js ''Technical'',
      bookGrid = [],
      arrays = [[0, 1, 2, 3]],
      objects = bookData sampleShelf,
      bookDataRef = 0\<rparr>"

text \<open>
  The worked scenario: three books are added, the filter is set to one category and back,
  the sort button is clicked once, and the second book is deleted from its card.
\<close>

definition scenarioEvents :: "event list" where
  "scenarioEvents =
     [addDune, addCleanCode, addCalvin, ChangeFilter (js ''Technical''), ChangeFilter (js ''All''),
      ClickSort, ClickDelete (js ''Clean Code'') (js ''Robert Martin'')]"

section \<open>Facts about the library functions\<close>

subsection \<open>Sorting\<close>

lemma set_insertBy: "set (insertBy cmp x ys) = insert x (set ys)"
  by (induction ys) auto

lemma mset_insertBy: "mset (insertBy cmp x ys) = add_mset x (mset ys)"
  by (induction ys) auto

lemma arraySort_Cons: "arraySort cmp (x # xs) = insertBy cmp x (arraySort cmp xs)"
  by (simp add: arraySort_def)

lemma mset_arraySort: "mset (arraySort cmp xs) = mset xs"
  by (induction xs) (simp_all add: arraySort_def mset_insertBy)

lemma set_arraySort: "set (arraySort cmp xs) = set xs"
  using mset_arraySort [of cmp xs] by (metis set_mset_mset)

lemma sorted_insertBy:
  assumes total: "\<And>a b. cmp a b \<le> 0 \<or> cmp b a \<le> 0"
    and trans: "\<And>a b c. cmp a b \<le> 0 \<Longrightarrow> cmp b c \<le> 0 \<Longrightarrow> cmp a c \<le> 0"
    and "sorted_wrt (\<lambda>a b. cmp a b \<le> 0) ys"
  shows "sorted_wrt (\<lambda>a b. cmp a b \<le> 0) (insertBy cmp x ys)"
  using assms(3)
proof (induction ys)
  case Nil
  then show ?case by simp
next
  case (Cons y ys)
  show ?case
  proof (cases "cmp x y \<le> 0")
    case True
    with Cons.prems show ?thesis by (auto intro: trans)
  next
    case False
    with total have "cmp y x \<le> 0" by blast
    with False Cons show ?thesis by (auto simp: set_insertBy)
  qed
qed

lemma sorted_arraySort:
  assumes total: "\<And>a b. cmp a b \<le> 0 \<or> cmp b a \<le> 0"
    and trans: "\<And>a b c. cmp a b \<le> 0 \<Longrightarrow> cmp b c \<le> 0 \<Longrightarrow> cmp a c \<le> 0"
  shows "sorted_wrt (\<lambda>a b. cmp a b \<le> 0) (arraySort cmp xs)"
proof (induction xs)
  case Nil
  then show ?case by (simp add: arraySort_def)
next
  case (Cons x xs)
  then show ?case
    using sorted_insertBy [of cmp "arraySort cmp xs" x, OF total trans]
    by (simp add: arraySort_Cons)
qed

text \<open>
  Stability: an element is only moved behind elements it compares greater than, so
  elements with one key stay in their order when equal keys never compare greater.
\<close>

lemma filter_insertBy:
  assumes eq: "\<And>y. key x = key y \<Longrightarrow> cmp x y \<le> 0"
  shows "filter (\<lambda>y. key y = k) (insertBy cmp x ys) = filter (\<lambda>y. key y = k) (x # ys)"
proof (induction ys)
  case Nil
  then show ?case by simp
next
  case (Cons y ys)
  show ?case
  proof (cases "cmp x y \<le> 0")
    case True
    then show ?thesis by simp
  next
    case False
    with eq have "key x \<noteq> key y" by blast
    with False Cons show ?thesis by auto
  qed
qed

lemma arraySort_stable:
  assumes eq: "\<And>x y. key x = key y \<Longrightarrow> cmp x y \<le> 0"
  shows "filter (\<lambda>y. key y = k) (arraySort cmp xs) = filter (\<lambda>y. key y = k) xs"
proof (induction xs)
  case Nil
  then show ?case by (simp add: arraySort_def)
next
  case (Cons x xs)
  then show ?case
    using filter_insertBy [of key x cmp k "arraySort cmp xs"] eq
    by (simp add: arraySort_Cons)
qed

text \<open>With a comparator that follows a key, the sort is the library's stable sort by key.\<close>

lemma insertBy_insort_key:
  assumes "\<And>a b. cmp a b \<le> 0 \<longleftrightarrow> key a \<le> key b"
  shows "insertBy cmp x ys = insort_key key x ys"
  by (induction ys) (simp_all add: assms)

lemma arraySort_sort_key:
  assumes "\<And>a b. cmp a b \<le> 0 \<longleftrightarrow> key a \<le> key b"
  shows "arraySort cmp xs = sort_key key xs"
proof (induction xs)
  case Nil
  show ?case by (simp add: arraySort_def)
next
  case (Cons x xs)
  then show ?case
    by (simp add: arraySort_Cons insertBy_insort_key [OF assms])
qed

lemma map_insertBy:
  "map f (insertBy (\<lambda>a b. cmp (f a) (f b)) x ys) = insertBy cmp (f x) (map f ys)"
  by (induction ys) auto

lemma map_arraySort:
  "map f (arraySort (\<lambda>a b. cmp (f a) (f b)) xs) = arraySort cmp (map f xs)"
  by (induction xs) (simp_all add: arraySort_def map_insertBy)

subsection \<open>Searching and removing\<close>

lemma findIndexFrom_none: "(\<forall>x\<in>set xs. \<not> p x) \<Longrightarrow> findIndexFrom p i xs = - 1"
  by (induction xs arbitrary: i) auto

lemma findIndexFrom_first:
  "\<forall>x\<in>set pre. \<not> p x \<Longrightarrow> p b \<Longrightarrow> findIndexFrom p i (pre @ b # post) = i + int (length pre)"
  by (induction pre arbitrary: i) auto

lemma set_splice: "set (splice i n xs) \<subseteq> set xs"
  using set_take_subset [of i xs] set_drop_subset [of "i + n" xs]
  by (auto simp: splice_def)

subsection \<open>Trimming\<close>

lemma trim_decomp:
  "\<exists>w. dropWhile P s = rev (dropWhile P (rev (dropWhile P s))) @ w \<and> (\<forall>c\<in>set w. P c)"
proof -
  let ?u = "dropWhile P s"
  have "rev ?u = takeWhile P (rev ?u) @ dropWhile P (rev ?u)" by simp
  then have "?u = rev (dropWhile P (rev ?u)) @ rev (takeWhile P (rev ?u))"
    by (metis rev_append rev_rev_ident)
  moreover have "\<forall>c\<in>set (rev (takeWhile P (rev ?u))). P c"
    by (auto dest: set_takeWhileD)
  ultimately show ?thesis by blast
qed

lemma trim_empty_iff: "trim s = [] \<longleftrightarrow> (\<forall>c\<in>set s. isWhiteSpace c)"
proof
  assume "trim s = []"
  then have all: "\<forall>c\<in>set (dropWhile isWhiteSpace s). isWhiteSpace c"
    by (simp add: trim_def)
  have "dropWhile isWhiteSpace s = []"
  proof (rule ccontr)
    assume ne: "dropWhile isWhiteSpace s \<noteq> []"
    then have "\<not> isWhiteSpace (hd (dropWhile isWhiteSpace s))"
      by (rule hd_dropWhile)
    moreover from ne have "hd (dropWhile isWhiteSpace s) \<in> set (dropWhile isWhiteSpace s)"
      by (rule hd_in_set)
    ultimately show False using all by blast
  qed
  then show "\<forall>c\<in>set s. isWhiteSpace c" by simp
next
  assume "\<forall>c\<in>set s. isWhiteSpace c"
  then have "dropWhile isWhiteSpace s = []" by simp
  then have "trim s = rev (dropWhile isWhiteSpace (rev []))"
    by (simp only: trim_def)
  then show "trim s = []" by simp
qed

lemma trim_idem: "trim (trim s) = trim s"
proof (cases "trim s = []")
  case True
  have "trim [] = []" by (simp add: trim_def)
  with True show ?thesis by simp
next
  case False
  let ?u = "dropWhile isWhiteSpace s"
  obtain w where w: "?u = trim s @ w"
    using trim_decomp [of isWhiteSpace s] by (auto simp: trim_def)
  from False w have "?u \<noteq> []" and "hd (trim s) = hd ?u" by auto
  then have "\<not> isWhiteSpace (hd (trim s))"
    using hd_dropWhile [of isWhiteSpace s] by simp
  with False have front: "dropWhile isWhiteSpace (trim s) = trim s"
    by (cases "trim s") auto
  have "rev (trim s) = dropWhile isWhiteSpace (rev ?u)"
    unfolding trim_def by (rule rev_rev_ident)
  then have rear: "dropWhile isWhiteSpace (rev (trim s)) = rev (trim s)"
    by (metis dropWhile_idem)
  have "trim (trim s) = rev (dropWhile isWhiteSpace (rev (dropWhile isWhiteSpace (trim s))))"
    by (rule trim_def)
  also have "\<dots> = rev (dropWhile isWhiteSpace (rev (trim s)))"
    by (simp only: front)
  also have "\<dots> = trim s"
    by (simp only: rear rev_rev_ident)
  finally show ?thesis .
qed


subsection \<open>Literals\<close>

lemma js_eq_iff [simp]: "js s = js t \<longleftrightarrow> s = t"
  by (simp add: js_def inj_map_eq_map inj_of_char)

lemma js_Nil_iff [simp]: "js s = [] \<longleftrightarrow> s = []"
  by (simp add: js_def)

section \<open>Facts about the handlers\<close>

lemma dom_updateDisplay [simp]:
  "bookData (updateDisplay up st) = bookData st"
  "sortOrder (updateDisplay up st) = sortOrder st"
  "sortText (updateDisplay up st) = sortText st"
  "filterValue (updateDisplay up st) = filterValue st"
  by (simp_all add: updateDisplay_def)

lemma compareTitles_asc:
  "compareTitles up (Some (js ''asc'')) a b \<le> 0 \<longleftrightarrow> up (title a) \<le> up (title b)"
  by (auto simp: compareTitles_def Let_def)

lemma compareTitles_desc:
  "order \<noteq> Some (js ''asc'') \<Longrightarrow>
     compareTitles up order a b \<le> 0 \<longleftrightarrow> up (title b) \<le> up (title a)"
  by (auto simp: compareTitles_def Let_def)

lemma compareTitles_total: "compareTitles up order a b \<le> 0 \<or> compareTitles up order b a \<le> 0"
  by (auto simp: compareTitles_def Let_def)

lemma compareTitles_trans:
  "compareTitles up order a b \<le> 0 \<Longrightarrow> compareTitles up order b c \<le> 0
     \<Longrightarrow> compareTitles up order a c \<le> 0"
  by (cases "order = Some (js ''asc'')") (auto simp: compareTitles_asc compareTitles_desc)

lemma compareTitles_equal:
  "up (title a) = up (title b) \<Longrightarrow> compareTitles up order a b = 0"
  by (simp add: compareTitles_def)

lemma compareTitles_zero:
  "compareTitles up order a b = 0 \<longleftrightarrow> up (title a) = up (title b)"
  by (auto simp: compareTitles_def Let_def)

lemma compareTitles_less:
  "compareTitles up (Some (js ''asc'')) a b < 0 \<longleftrightarrow> up (title a) < up (title b)"
  by (auto simp: compareTitles_def Let_def)

lemma compareTitles_reverse:
  "order \<noteq> Some (js ''asc'') \<Longrightarrow>
     compareTitles up order a b = - compareTitles up (Some (js ''asc'')) a b"
  by (auto simp: compareTitles_def Let_def)

lemma set_getProcessedBooks: "set (getProcessedBooks up st) \<subseteq> set (bookData st)"
  by (auto simp: getProcessedBooks_def Let_def set_arraySort)

lemma mset_getProcessedBooks:
  "mset (getProcessedBooks up st) =
     (if filterValue st \<noteq> js ''All''
      then filter_mset (\<lambda>b. category b = filterValue st) (mset (bookData st))
      else mset (bookData st))"
  by (simp add: getProcessedBooks_def Let_def mset_arraySort)

lemma bookData_handleAddBook:
  "bookData (handleAddBook up t a c st)
     = bookData st @ [\<lparr>title = trim t, author = trim a, category = c,
                       imageUrl = DEFAULT_IMAGE_URL\<rparr>]"
  by (simp add: handleAddBook_def Let_def)

lemma dom_handleAddBook:
  "sortOrder (handleAddBook up t a c st) = sortOrder st"
  "filterValue (handleAddBook up t a c st) = filterValue st"
  by (simp_all add: handleAddBook_def Let_def)

lemma dom_handleFilterChange:
  "bookData (handleFilterChange up c st) = bookData st"
  "sortOrder (handleFilterChange up c st) = sortOrder st"
  "filterValue (handleFilterChange up c st) = c"
  by (simp_all add: handleFilterChange_def)

lemma sortOrder_handleSort:
  "sortOrder (handleSort up st) =
     (if sortOrder st = Some (js ''asc'') then Some (js ''desc'') else Some (js ''asc''))"
  by (simp add: handleSort_def Let_def)

lemma sortText_handleSort:
  "sortText (handleSort up st) =
     (if sortOrder st = Some (js ''asc'') then labelDescending else labelAscending)"
  by (simp add: handleSort_def Let_def)

lemma dom_handleSort:
  "bookData (handleSort up st) = bookData st"
  "filterValue (handleSort up st) = filterValue st"
  by (simp_all add: handleSort_def Let_def split: prod.splits)

lemma bookData_handleDelete:
  "bookData (handleDelete up t a st) =
     (let mainIndex = findIndex (\<lambda>book. title book = t \<and> author book = a) (bookData st)
      in if mainIndex \<noteq> - 1 then splice (nat mainIndex) 1 (bookData st) else bookData st)"
  by (simp add: handleDelete_def Let_def)

lemma dom_handleDelete:
  "sortOrder (handleDelete up t a st) = sortOrder st"
  "filterValue (handleDelete up t a st) = filterValue st"
  by (simp_all add: handleDelete_def Let_def)

lemma sortOrder_handleEvent:
  "e \<noteq> ClickSort \<Longrightarrow> sortOrder (handleEvent up e st) = sortOrder st"
  by (cases e) (simp_all add: dom_handleAddBook dom_handleDelete dom_handleFilterChange)

text \<open>
  The sort state after a run of events, from any start: only the clicks on the sort button
  count, and only their number.
\<close>

lemma sortOrder_runEvents:
  "sortOrder (runEvents up evs st) =
     (let n = length (filter (\<lambda>e. e = ClickSort) evs) in
      if n = 0 then sortOrder st
      else if (sortOrder st = Some (js ''asc'')) = even n then Some (js ''asc'')
      else Some (js ''desc''))"
proof (induction evs arbitrary: st)
  case Nil
  then show ?case by simp
next
  case (Cons e evs)
  show ?case
  proof (cases "e = ClickSort")
    case True
    then show ?thesis
      using Cons.IH [of "handleSort up st"] by (auto simp: Let_def sortOrder_handleSort)
  next
    case False
    then show ?thesis
      using Cons.IH [of "handleEvent up e st"] by (simp add: Let_def sortOrder_handleEvent)
  qed
qed

text \<open>
  A record that is in the store after an event was in the store before it, or is the record
  that the add form has just built.
\<close>

lemma bookData_handleEvent:
  "b \<in> set (bookData (handleEvent up e st)) \<Longrightarrow>
     b \<in> set (bookData st)
   \<or> (\<exists>t a c. e = Submit t a c
        \<and> b = \<lparr>title = trim t, author = trim a, category = c, imageUrl = DEFAULT_IMAGE_URL\<rparr>)"
  using set_splice [of _ 1 "bookData st"]
  by (cases e) (auto simp: bookData_handleAddBook bookData_handleDelete dom_handleFilterChange
      dom_handleSort Let_def split: if_splits)

lemma store_invariant:
  assumes "\<And>t a c. P \<lparr>title = trim t, author = trim a, category = c, imageUrl = DEFAULT_IMAGE_URL\<rparr>"
  shows "\<forall>b\<in>set (bookData st). P b \<Longrightarrow> \<forall>b\<in>set (bookData (runEvents up evs st)). P b"
proof (induction evs arbitrary: st)
  case Nil
  then show ?case by simp
next
  case (Cons e evs)
  have "\<forall>b\<in>set (bookData (handleEvent up e st)). P b"
  proof
    fix b
    assume "b \<in> set (bookData (handleEvent up e st))"
    then consider "b \<in> set (bookData st)"
      | t a c where "b = \<lparr>title = trim t, author = trim a, category = c,
                              imageUrl = DEFAULT_IMAGE_URL\<rparr>"
      using bookData_handleEvent [of b up e st] by blast
    then show "P b"
    proof cases
      case 1
      with Cons.prems show ?thesis by blast
    next
      case 2
      with assms show ?thesis by simp
    qed
  qed
  then show ?case
    using Cons.IH [of "handleEvent up e st"] by simp
qed

subsection \<open>The worked scenario, step by step\<close>

lemma trim_samples:
  "trim (js ''Dune'') = js ''Dune''"
  "trim (js ''Frank Herbert'') = js ''Frank Herbert''"
  "trim (js ''Clean Code'') = js ''Clean Code''"
  "trim (js ''Robert Martin'') = js ''Robert Martin''"
  "trim (js ''Calvin and Hobbes'') = js ''Calvin and Hobbes''"
  "trim (js ''Bill Watterson'') = js ''Bill Watterson''"
  by (simp_all add: trim_def js_def isWhiteSpace_def)

text \<open>
  The store, the filter and the sort state at the end of the scenario do not depend on the
  case mapping: it is used for the order of the cards only.
\<close>

lemma scenario_final:
  "bookData (runEvents up scenarioEvents (initialState caption))
     = [mkBook ''Dune'' ''Frank Herbert'' ''Technical'',
        mkBook ''Calvin and Hobbes'' ''Bill Watterson'' ''Comedy'']"
  "filterValue (runEvents up scenarioEvents (initialState caption)) = js ''All''"
  "sortOrder (runEvents up scenarioEvents (initialState caption)) = Some (js ''asc'')"
  by (simp_all add: scenarioEvents_def addDune_def addCleanCode_def addCalvin_def
      initialState_def mkBook_def trim_samples bookData_handleAddBook dom_handleAddBook
      dom_handleFilterChange sortOrder_handleSort dom_handleSort bookData_handleDelete
      dom_handleDelete findIndex_def splice_def Let_def)

lemma upper_samples:
  "toUpperLatin1 (js ''Dune'') = js ''DUNE''"
  "toUpperLatin1 (js ''dune'') = js ''DUNE''"
  "toUpperLatin1 (js ''Clean Code'') = js ''CLEAN CODE''"
  "toUpperLatin1 (js ''Calvin and Hobbes'') = js ''CALVIN AND HOBBES''"
  by (simp_all add: toUpperLatin1_def toUpperUnit_def js_def)

lemma order_samples:
  "js ''CALVIN AND HOBBES'' < js ''DUNE''"
  "js ''CLEAN CODE'' < js ''DUNE''"
  by (simp_all add: js_def)

text \<open>
  The projection at the end of the scenario, for a case mapping that gives the two titles
  their upper-case forms.
\<close>

lemma scenario_cards:
  assumes "up (js ''Dune'') = js ''DUNE''"
    and "up (js ''Calvin and Hobbes'') = js ''CALVIN AND HOBBES''"
  shows "getProcessedBooks up (runEvents up scenarioEvents (initialState caption))
     = [mkBook ''Calvin and Hobbes'' ''Bill Watterson'' ''Comedy'',
        mkBook ''Dune'' ''Frank Herbert'' ''Technical'']"
  using order_samples(1)
  by (simp add: getProcessedBooks_def scenario_final arraySort_def compareTitles_def mkBook_def
      assms Let_def)


section \<open>The worked scenario\<close>

text \<open>
  C1 (as amended). After the three adds, one click on sort and the delete of
  Clean Code / Robert Martin, the store holds exactly two records, Dune and Calvin and
  Hobbes in insertion order. The filter is back at \<^verbatim>\<open>All\<close> and the sort state is still
  ascending, so the projection that follows is sorted: Calvin and Hobbes, then Dune. The
  case mapping is any function that gives the two titles their upper-case forms, as the
  one of the runtime does.
\<close>

theorem scenario_after_delete:
  "length (bookData (runEvents up scenarioEvents (initialState caption))) = 2
   \<and> map title (bookData (runEvents up scenarioEvents (initialState caption)))
       = [js ''Dune'', js ''Calvin and Hobbes'']
   \<and> filterValue (runEvents up scenarioEvents (initialState caption)) = js ''All''
   \<and> sortOrder (runEvents up scenarioEvents (initialState caption)) = Some (js ''asc'')
   \<and> (up (js ''Dune'') = js ''DUNE''
        \<and> up (js ''Calvin and Hobbes'') = js ''CALVIN AND HOBBES''
      \<longrightarrow> map title (getProcessedBooks up (runEvents up scenarioEvents (initialState caption)))
            = [js ''Calvin and Hobbes'', js ''Dune''])"
  by (simp add: scenario_final scenario_cards mkBook_def)

theorem scenario_after_delete_witness:
  "toUpperLatin1 (js ''Dune'') = js ''DUNE''
   \<and> toUpperLatin1 (js ''Calvin and Hobbes'') = js ''CALVIN AND HOBBES''
   \<and> map title (bookData (runEvents toUpperLatin1 scenarioEvents (initialState [])))
       = [js ''Dune'', js ''Calvin and Hobbes'']
   \<and> map title
        (getProcessedBooks toUpperLatin1 (runEvents toUpperLatin1 scenarioEvents (initialState [])))
       = [js ''Calvin and Hobbes'', js ''Dune'']"
  using scenario_after_delete [of toUpperLatin1 "[]"] upper_samples(1) upper_samples(4)
  by simp

text \<open>
  C1 as stated asks for the projection Dune, Calvin and Hobbes after the delete. The
  script does not give it.
\<close>

theorem scenario_projection_counterexample:
  "map title
     (getProcessedBooks toUpperLatin1 (runEvents toUpperLatin1 scenarioEvents (initialState [])))
     \<noteq> [js ''Dune'', js ''Calvin and Hobbes'']"
  using scenario_cards [OF upper_samples(1) upper_samples(4), of "[]"]
  by (simp add: mkBook_def)

section \<open>The sort button\<close>

text \<open>
  C2 (as amended). After every click on the sort button the caption names the order that
  the click has just put in force: when the state before the click was ascending, the state
  is now descending and the caption reads \<^verbatim>\<open>Sort by Title Z -> A\<close>; when the state before
  the click was anything else (descending or unset), the state is now ascending and the
  caption reads \<^verbatim>\<open>Sort by Title A -> Z\<close>. (The arrow of the captions is written
  \<^verbatim>\<open>->\<close> in this text.)
\<close>

theorem handleSort_label:
  "(sortOrder st = Some (js ''asc'') \<longrightarrow>
      sortOrder (handleSort up st) = Some (js ''desc'')
      \<and> sortText (handleSort up st) = labelDescending)
   \<and> (sortOrder st \<noteq> Some (js ''asc'') \<longrightarrow>
      sortOrder (handleSort up st) = Some (js ''asc'')
      \<and> sortText (handleSort up st) = labelAscending)"
  by (simp add: sortOrder_handleSort sortText_handleSort)

theorem handleSort_label_witness:
  "sortOrder (handleSort toUpperLatin1 (initialState [])) = Some (js ''asc'')
   \<and> sortText (handleSort toUpperLatin1 (initialState [])) = labelAscending
   \<and> sortOrder (handleSort toUpperLatin1 (handleSort toUpperLatin1 (initialState [])))
       = Some (js ''desc'')
   \<and> sortText (handleSort toUpperLatin1 (handleSort toUpperLatin1 (initialState [])))
       = labelDescending"
proof -
  have one: "sortOrder (handleSort toUpperLatin1 (initialState [])) = Some (js ''asc'')
      \<and> sortText (handleSort toUpperLatin1 (initialState [])) = labelAscending"
    using handleSort_label [of "initialState []" toUpperLatin1] by (simp add: initialState_def)
  then have "sortOrder (handleSort toUpperLatin1 (handleSort toUpperLatin1 (initialState [])))
        = Some (js ''desc'')
      \<and> sortText (handleSort toUpperLatin1 (handleSort toUpperLatin1 (initialState [])))
        = labelDescending"
    using handleSort_label [of "handleSort toUpperLatin1 (initialState [])" toUpperLatin1]
    by simp
  with one show ?thesis by simp
qed

text \<open>
  C2 as stated asks for the caption \<^verbatim>\<open>Sort by Title Z -> A\<close> whenever the current state
  is ascending. After the first click the state is ascending and the caption is the other
  one.
\<close>

theorem handleSort_label_counterexample:
  "sortOrder (handleSort toUpperLatin1 (initialState [])) = Some (js ''asc'')
   \<and> sortText (handleSort toUpperLatin1 (initialState [])) \<noteq> labelDescending"
  by (simp add: sortOrder_handleSort sortText_handleSort initialState_def
      labelAscending_def labelDescending_def js_def)

text \<open>
  C9. From the unset state the first click on the sort button gives ascending, and the
  clicks alternate between ascending and descending from there, whatever other events
  come in between: after \<open>n\<close> clicks the state is unset for \<open>n = 0\<close>, ascending for odd
  \<open>n\<close> and descending for even \<open>n > 0\<close>. From any state, once the button has been
  clicked the state is ascending or descending, never unset.
\<close>

theorem sort_state_machine:
  "(sortOrder st = None \<longrightarrow>
      sortOrder (runEvents up evs st) =
        (let n = length (filter (\<lambda>e. e = ClickSort) evs) in
         if n = 0 then None else if odd n then Some (js ''asc'') else Some (js ''desc'')))
   \<and> (ClickSort \<in> set evs \<longrightarrow>
        sortOrder (runEvents up evs st) = Some (js ''asc'')
        \<or> sortOrder (runEvents up evs st) = Some (js ''desc''))"
proof -
  have "ClickSort \<in> set evs \<Longrightarrow> length (filter (\<lambda>e. e = ClickSort) evs) \<noteq> 0"
    by (simp add: filter_empty_conv)
  then show ?thesis
    by (auto simp: sortOrder_runEvents Let_def)
qed

theorem sort_state_machine_witness:
  "sortOrder (initialState []) = None
   \<and> sortOrder (runEvents toUpperLatin1 [ClickSort] (initialState [])) = Some (js ''asc'')
   \<and> sortOrder (runEvents toUpperLatin1 [ClickSort, addDune, ClickSort] (initialState []))
       = Some (js ''desc'')
   \<and> sortOrder (runEvents toUpperLatin1 [ClickSort, addDune, ClickSort, ClickSort] (initialState []))
       = Some (js ''asc'')"
  using sort_state_machine [of "initialState []" toUpperLatin1 "[ClickSort]"]
    sort_state_machine [of "initialState []" toUpperLatin1 "[ClickSort, addDune, ClickSort]"]
    sort_state_machine [of "initialState []" toUpperLatin1
      "[ClickSort, addDune, ClickSort, ClickSort]"]
  by (simp add: initialState_def addDune_def)

section \<open>Deleting\<close>

text \<open>
  C3. For every store and every pair of a title and an author: when the store has a
  record with exactly that title and author, split it at the first one, \<open>pre @ b # post\<close>
  with no match in \<open>pre\<close>; the delete leaves \<open>pre @ post\<close>, one record fewer, every
  other record (a second copy of \<open>b\<close> in \<open>post\<close> too) where it was, and the sort state
  and filter as they were. When no record matches, the whole state is unchanged. The handler
  has no failing path. One of the two cases always holds.
\<close>

theorem handleDelete_first_match:
  "(bookData st = pre @ b # post \<and> (\<forall>x\<in>set pre. \<not> (title x = t \<and> author x = a))
      \<and> title b = t \<and> author b = a
     \<longrightarrow> bookData (handleDelete up t a st) = pre @ post
         \<and> length (bookData (handleDelete up t a st)) + 1 = length (bookData st)
         \<and> sortOrder (handleDelete up t a st) = sortOrder st
         \<and> filterValue (handleDelete up t a st) = filterValue st)
   \<and> ((\<forall>x\<in>set (bookData st). \<not> (title x = t \<and> author x = a))
        \<longrightarrow> handleDelete up t a st = st)
   \<and> ((\<exists>pre b post. bookData st = pre @ b # post
          \<and> (\<forall>x\<in>set pre. \<not> (title x = t \<and> author x = a)) \<and> title b = t \<and> author b = a)
        \<or> (\<forall>x\<in>set (bookData st). \<not> (title x = t \<and> author x = a)))"
proof (intro conjI impI)
  let ?p = "\<lambda>book. title book = t \<and> author book = a"
  assume h: "bookData st = pre @ b # post \<and> (\<forall>x\<in>set pre. \<not> ?p x) \<and> title b = t \<and> author b = a"
  then have idx: "findIndex ?p (bookData st) = int (length pre)"
    using findIndexFrom_first [of pre ?p b 0 post] by (simp add: findIndex_def)
  then have del: "bookData (handleDelete up t a st) = splice (length pre) 1 (bookData st)"
    by (simp add: handleDelete_def Let_def)
  with h show "bookData (handleDelete up t a st) = pre @ post"
    by (simp add: splice_def)
  with h show "length (bookData (handleDelete up t a st)) + 1 = length (bookData st)"
    by simp
  from idx show "sortOrder (handleDelete up t a st) = sortOrder st"
    by (simp add: handleDelete_def Let_def)
  from idx show "filterValue (handleDelete up t a st) = filterValue st"
    by (simp add: handleDelete_def Let_def)
next
  assume "\<forall>x\<in>set (bookData st). \<not> (title x = t \<and> author x = a)"
  then have "findIndex (\<lambda>book. title book = t \<and> author book = a) (bookData st) = - 1"
    using findIndexFrom_none [of "bookData st" "\<lambda>book. title book = t \<and> author book = a" 0]
    by (simp add: findIndex_def)
  then show "handleDelete up t a st = st"
    by (simp add: handleDelete_def Let_def)
next
  show "(\<exists>pre b post. bookData st = pre @ b # post
          \<and> (\<forall>x\<in>set pre. \<not> (title x = t \<and> author x = a)) \<and> title b = t \<and> author b = a)
        \<or> (\<forall>x\<in>set (bookData st). \<not> (title x = t \<and> author x = a))"
    using split_list_first_prop [of "bookData st" "\<lambda>book. title book = t \<and> author book = a"]
    by blast
qed

text \<open>
  On the sample shelf, which holds Clean Code twice: the delete takes the first copy and
  keeps the second; a title with another book's author matches nothing.
\<close>

theorem handleDelete_first_match_witness:
  "bookData (handleDelete toUpperLatin1 (js ''Clean Code'') (js ''Robert Martin'') sampleShelf)
     = [mkBook ''dune'' ''F. Herbert'' ''Comedy'',
        mkBook ''Dune'' ''Frank Herbert'' ''Technical'',
        mkBook ''Clean Code'' ''Robert Martin'' ''Technical'']
   \<and> handleDelete toUpperLatin1 (js ''Dune'') (js ''Robert Martin'') sampleShelf = sampleShelf"
proof -
  have "bookData (handleDelete toUpperLatin1 (js ''Clean Code'') (js ''Robert Martin'') sampleShelf)
     = [mkBook ''dune'' ''F. Herbert'' ''Comedy''] @
        [mkBook ''Dune'' ''Frank Herbert'' ''Technical'',
         mkBook ''Clean Code'' ''Robert Martin'' ''Technical'']"
    using handleDelete_first_match [of sampleShelf "[mkBook ''dune'' ''F. Herbert'' ''Comedy'']"
        "mkBook ''Clean Code'' ''Robert Martin'' ''Technical''"
        "[mkBook ''Dune'' ''Frank Herbert'' ''Technical'',
          mkBook ''Clean Code'' ''Robert Martin'' ''Technical'']"
        "js ''Clean Code''" "js ''Robert Martin''" toUpperLatin1]
    by (simp add: sampleShelf_def mkBook_def)
  moreover have
    "handleDelete toUpperLatin1 (js ''Dune'') (js ''Robert Martin'') sampleShelf = sampleShelf"
    using handleDelete_first_match [of sampleShelf _ _ _ "js ''Dune''" "js ''Robert Martin''"
        toUpperLatin1]
    by (simp add: sampleShelf_def mkBook_def)
  ultimately show ?thesis by simp
qed

section \<open>Adding\<close>

text \<open>
  C4 (as amended). The add handler builds the record from the trimmed title and the
  trimmed author and appends it with no test of its own for emptiness. A stored title or
  author is empty exactly when the text of the form field was white space only, and in
  every store that grows from the empty one each title and each author is its own trim:
  it has no white space at either end.
\<close>

theorem handleAddBook_trims:
  "bookData (handleAddBook up t a c st)
     = bookData st @ [\<lparr>title = trim t, author = trim a, category = c,
                       imageUrl = DEFAULT_IMAGE_URL\<rparr>]
   \<and> (trim t = [] \<longleftrightarrow> (\<forall>u\<in>set t. isWhiteSpace u))
   \<and> (trim a = [] \<longleftrightarrow> (\<forall>u\<in>set a. isWhiteSpace u))
   \<and> (bookData st = [] \<longrightarrow>
        (\<forall>b\<in>set (bookData (runEvents up evs st)).
           trim (title b) = title b \<and> trim (author b) = author b))"
proof (intro conjI impI)
  show "bookData (handleAddBook up t a c st)
     = bookData st @ [\<lparr>title = trim t, author = trim a, category = c,
                       imageUrl = DEFAULT_IMAGE_URL\<rparr>]"
    by (rule bookData_handleAddBook)
  show "trim t = [] \<longleftrightarrow> (\<forall>u\<in>set t. isWhiteSpace u)" by (rule trim_empty_iff)
  show "trim a = [] \<longleftrightarrow> (\<forall>u\<in>set a. isWhiteSpace u)" by (rule trim_empty_iff)
next
  assume "bookData st = []"
  then have "\<forall>b\<in>set (bookData st). trim (title b) = title b \<and> trim (author b) = author b"
    by simp
  then show "\<forall>b\<in>set (bookData (runEvents up evs st)).
           trim (title b) = title b \<and> trim (author b) = author b"
    by (rule store_invariant [rotated]) (simp add: trim_idem)
qed

text \<open>
  A title with spaces around it is stored without them. A title of a no-break space and an
  ideographic space (U+00A0, U+3000) is white space only and is stored empty.
\<close>

theorem handleAddBook_trims_witness:
  "bookData (handleAddBook toUpperLatin1 (js ''  Dune '') (js '' Frank Herbert'') (js ''Technical'')
       (initialState []))
     = [mkBook ''Dune'' ''Frank Herbert'' ''Technical'']
   \<and> trim (js ''  Dune '') \<noteq> []
   \<and> trim [0xA0, 0x3000] = []
   \<and> map title (bookData (handleAddBook toUpperLatin1 [0xA0, 0x3000] (js ''A'') (js ''Comedy'')
       (initialState []))) = [[]]
   \<and> bookData (initialState []) = []
   \<and> map (\<lambda>b. trim (title b))
        (bookData (runEvents toUpperLatin1
           [Submit (js ''  Dune '') (js '' Frank Herbert'') (js ''Technical'')] (initialState [])))
       = [js ''Dune'']"
proof -
  have tr: "trim (js ''  Dune '') = js ''Dune''"
    "trim (js '' Frank Herbert'') = js ''Frank Herbert''"
    by (simp_all add: trim_def js_def isWhiteSpace_def)
  have emp: "bookData (initialState []) = []"
    by (simp add: initialState_def)
  have run: "bookData (runEvents toUpperLatin1
        [Submit (js ''  Dune '') (js '' Frank Herbert'') (js ''Technical'')] (initialState []))
      = bookData (handleAddBook toUpperLatin1 (js ''  Dune '') (js '' Frank Herbert'')
          (js ''Technical'') (initialState []))"
    by simp
  have ws: "\<forall>u\<in>set [0xA0, 0x3000]. isWhiteSpace u"
    by (simp add: isWhiteSpace_def)
  note one = handleAddBook_trims [of toUpperLatin1 "js ''  Dune ''" "js '' Frank Herbert''"
      "js ''Technical''" "initialState []"
      "[Submit (js ''  Dune '') (js '' Frank Herbert'') (js ''Technical'')]"]
  note two = handleAddBook_trims [of toUpperLatin1 "[0xA0, 0x3000]" "js ''A''" "js ''Comedy''"
      "initialState []" "[]"]
  have a: "bookData (handleAddBook toUpperLatin1 (js ''  Dune '') (js '' Frank Herbert'')
       (js ''Technical'') (initialState []))
     = [mkBook ''Dune'' ''Frank Herbert'' ''Technical'']"
    using one by (simp add: tr emp mkBook_def)
  have b: "trim [0xA0, 0x3000] = []"
    using two ws by blast
  have c: "map title (bookData (handleAddBook toUpperLatin1 [0xA0, 0x3000] (js ''A'') (js ''Comedy'')
       (initialState []))) = [[]]"
    using two b by (simp add: emp)
  show ?thesis
    using a b c by (simp add: tr emp run mkBook_def trim_samples)
qed

text \<open>
  C4 as stated says that no add can store an empty title or author. A title and an author
  of two spaces each are not empty, so the required-field check of the form lets them
  pass; the record that is stored has the empty title and the empty author.
\<close>

theorem handleAddBook_blank_counterexample:
  "map title
     (bookData (handleAddBook toUpperLatin1 (js ''  '') (js ''  '') (js ''Technical'')
        (initialState []))) = [[]]
   \<and> map author
     (bookData (handleAddBook toUpperLatin1 (js ''  '') (js ''  '') (js ''Technical'')
        (initialState []))) = [[]]"
  by (simp add: bookData_handleAddBook initialState_def trim_def js_def isWhiteSpace_def)

text \<open>
  C10. In every store that grows from the empty one by any events, every record has the
  one default image address, which is not empty, and so has every record of the
  projection that is drawn. No event changes a record: a record that is in the store after
  an event was in the store before it, or is the new record with the default address.
\<close>

theorem stored_image_is_default:
  "(bookData st = [] \<longrightarrow>
      (\<forall>b\<in>set (bookData (runEvents up evs st)) \<union> set (getProcessedBooks up (runEvents up evs st)).
         imageUrl b = DEFAULT_IMAGE_URL \<and> imageUrl b \<noteq> []))
   \<and> (\<forall>b\<in>set (bookData (handleEvent up e st)).
         b \<in> set (bookData st) \<or> imageUrl b = DEFAULT_IMAGE_URL)"
proof (intro conjI impI)
  assume "bookData st = []"
  then have "\<forall>b\<in>set (bookData st). imageUrl b = DEFAULT_IMAGE_URL" by simp
  then have "\<forall>b\<in>set (bookData (runEvents up evs st)). imageUrl b = DEFAULT_IMAGE_URL"
    by (rule store_invariant [rotated]) simp
  moreover have "DEFAULT_IMAGE_URL \<noteq> []"
    by (simp add: DEFAULT_IMAGE_URL_def)
  ultimately show
    "\<forall>b\<in>set (bookData (runEvents up evs st)) \<union> set (getProcessedBooks up (runEvents up evs st)).
         imageUrl b = DEFAULT_IMAGE_URL \<and> imageUrl b \<noteq> []"
    using set_getProcessedBooks [of up "runEvents up evs st"] by auto
next
  show "\<forall>b\<in>set (bookData (handleEvent up e st)).
         b \<in> set (bookData st) \<or> imageUrl b = DEFAULT_IMAGE_URL"
  proof
    fix b
    assume "b \<in> set (bookData (handleEvent up e st))"
    then show "b \<in> set (bookData st) \<or> imageUrl b = DEFAULT_IMAGE_URL"
      using bookData_handleEvent [of b up e st] by auto
  qed
qed

theorem stored_image_is_default_witness:
  "bookData (initialState []) = []
   \<and> map imageUrl (bookData (runEvents toUpperLatin1 scenarioEvents (initialState [])))
       = [DEFAULT_IMAGE_URL, DEFAULT_IMAGE_URL]
   \<and> map imageUrl
        (getProcessedBooks toUpperLatin1 (runEvents toUpperLatin1 scenarioEvents (initialState [])))
       = [DEFAULT_IMAGE_URL, DEFAULT_IMAGE_URL]"
proof -
  let ?s = "runEvents toUpperLatin1 scenarioEvents (initialState [])"
  have len: "length (bookData ?s) = 2"
    by (simp add: scenario_final)
  have "size (mset (getProcessedBooks toUpperLatin1 ?s)) = size (mset (bookData ?s))"
    by (simp only: mset_getProcessedBooks scenario_final if_False simp_thms)
  with len have len': "length (getProcessedBooks toUpperLatin1 ?s) = 2"
    by simp
  have emp: "bookData (initialState []) = []"
    by (simp add: initialState_def)
  have "\<forall>b\<in>set (bookData ?s). imageUrl b = DEFAULT_IMAGE_URL"
    "\<forall>b\<in>set (getProcessedBooks toUpperLatin1 ?s). imageUrl b = DEFAULT_IMAGE_URL"
    using stored_image_is_default [of "initialState []" toUpperLatin1 scenarioEvents] emp
    by simp_all
  then have "map imageUrl (bookData ?s) = replicate (length (bookData ?s)) DEFAULT_IMAGE_URL"
    "map imageUrl (getProcessedBooks toUpperLatin1 ?s)
       = replicate (length (getProcessedBooks toUpperLatin1 ?s)) DEFAULT_IMAGE_URL"
    by (simp_all add: map_replicate_const [symmetric] cong: map_cong)
  with len len' emp show ?thesis by (simp add: numeral_2_eq_2)
qed

section \<open>The projection\<close>

text \<open>
  C7. With the filter at \<^verbatim>\<open>All\<close> and the sort state unset, the projection is the store
  itself: the same records, so the same titles, authors and categories, in the same order.
\<close>

theorem getProcessedBooks_roundtrip:
  "filterValue st = js ''All'' \<Longrightarrow> sortOrder st = None \<Longrightarrow> getProcessedBooks up st = bookData st"
  by (simp add: getProcessedBooks_def)

theorem getProcessedBooks_roundtrip_witness:
  "filterValue (sampleShelf\<lparr>sortOrder := None\<rparr>) = js ''All''
   \<and> sortOrder (sampleShelf\<lparr>sortOrder := None\<rparr>) = None
   \<and> getProcessedBooks toUpperLatin1 (sampleShelf\<lparr>sortOrder := None\<rparr>) = bookData sampleShelf"
  using getProcessedBooks_roundtrip [of "sampleShelf\<lparr>sortOrder := None\<rparr>" toUpperLatin1]
  by (simp add: sampleShelf_def)

text \<open>
  C6. For every store and every filter value other than \<^verbatim>\<open>All\<close>, the filter step keeps
  exactly the records of the store whose category is that value, in the order of the
  store. With the sort state unset this list is the projection. With a sort state set the
  projection is the sort of this list, so that under every sort state the projection holds
  exactly those records, each as often as the store has it. With the filter at \<^verbatim>\<open>All\<close>
  every record is retained: the unsorted projection is the store.
\<close>

theorem getProcessedBooks_filters:
  "(filterValue st \<noteq> js ''All'' \<longrightarrow>
      (\<not> truthy (sortOrder st) \<longrightarrow>
         getProcessedBooks up st = filter (\<lambda>b. category b = filterValue st) (bookData st))
    \<and> (truthy (sortOrder st) \<longrightarrow>
         getProcessedBooks up st
           = arraySort (compareTitles up (sortOrder st))
               (filter (\<lambda>b. category b = filterValue st) (bookData st)))
    \<and> mset (getProcessedBooks up st)
        = filter_mset (\<lambda>b. category b = filterValue st) (mset (bookData st)))
   \<and> (filterValue st = js ''All'' \<longrightarrow>
      (\<not> truthy (sortOrder st) \<longrightarrow> getProcessedBooks up st = bookData st)
    \<and> mset (getProcessedBooks up st) = mset (bookData st))"
  by (simp add: getProcessedBooks_def Let_def mset_arraySort)

text \<open>
  On the sample shelf with the filter at Technical: unsorted, the three Technical records
  in the order of the store.
\<close>

theorem getProcessedBooks_filters_witness:
  "filterValue (sampleShelf\<lparr>filterValue := js ''Technical'', sortOrder := None\<rparr>) \<noteq> js ''All''
   \<and> getProcessedBooks toUpperLatin1
        (sampleShelf\<lparr>filterValue := js ''Technical'', sortOrder := None\<rparr>)
       = [mkBook ''Clean Code'' ''Robert Martin'' ''Technical'',
          mkBook ''Dune'' ''Frank Herbert'' ''Technical'',
          mkBook ''Clean Code'' ''Robert Martin'' ''Technical'']
   \<and> mset (getProcessedBooks toUpperLatin1 (sampleShelf\<lparr>filterValue := js ''Technical''\<rparr>))
       = mset [mkBook ''Clean Code'' ''Robert Martin'' ''Technical'',
          mkBook ''Dune'' ''Frank Herbert'' ''Technical'',
          mkBook ''Clean Code'' ''Robert Martin'' ''Technical'']
   \<and> getProcessedBooks toUpperLatin1 (sampleShelf\<lparr>sortOrder := None\<rparr>) = bookData sampleShelf"
proof -
  let ?tech = "sampleShelf\<lparr>filterValue := js ''Technical'', sortOrder := None\<rparr>"
  let ?techSorted = "sampleShelf\<lparr>filterValue := js ''Technical''\<rparr>"
  let ?all = "sampleShelf\<lparr>sortOrder := None\<rparr>"
  have f1: "filterValue ?tech \<noteq> js ''All''" "\<not> truthy (sortOrder ?tech)"
    and f2: "filterValue ?techSorted \<noteq> js ''All''"
    and f3: "filterValue ?all = js ''All''" "\<not> truthy (sortOrder ?all)"
    by (simp_all add: sampleShelf_def)
  have pick: "filter (\<lambda>b. category b = js ''Technical'') (bookData sampleShelf)
      = [mkBook ''Clean Code'' ''Robert Martin'' ''Technical'',
         mkBook ''Dune'' ''Frank Herbert'' ''Technical'',
         mkBook ''Clean Code'' ''Robert Martin'' ''Technical'']"
    by (simp add: sampleShelf_def mkBook_def)
  have a: "getProcessedBooks toUpperLatin1 ?tech
      = filter (\<lambda>b. category b = filterValue ?tech) (bookData ?tech)"
    using getProcessedBooks_filters [of ?tech toUpperLatin1] f1 by blast
  have b: "mset (getProcessedBooks toUpperLatin1 ?techSorted)
      = filter_mset (\<lambda>b. category b = filterValue ?techSorted) (mset (bookData ?techSorted))"
    using getProcessedBooks_filters [of ?techSorted toUpperLatin1] f2 by blast
  have c: "getProcessedBooks toUpperLatin1 ?all = bookData ?all"
    using getProcessedBooks_filters [of ?all toUpperLatin1] f3 by blast
  have b': "mset (getProcessedBooks toUpperLatin1 ?techSorted)
      = mset (filter (\<lambda>b. category b = js ''Technical'') (bookData sampleShelf))"
    using b by simp
  show ?thesis
    using f1(1) a b' c by (simp add: pick)
qed

text \<open>
  C5. When the sort state is set, the projection is the sort of the filtered records by
  the comparator of the script, for every case mapping. The comparator looks at the titles
  in upper case only: it is zero exactly on equal upper-case titles, for ascending it is
  negative exactly when the first upper-case title is the smaller one, and for descending
  it is the negation of the ascending one. The projection has the same records as the
  filtered list; for ascending the upper-case titles do not decrease along it (it is the
  library's stable sort by upper-case title), for descending they do not increase; and the
  records of any one upper-case title are in the order they have in the filtered list.
\<close>

theorem getProcessedBooks_sorts:
  assumes "truthy (sortOrder st)"
  shows "getProcessedBooks up st
           = arraySort (compareTitles up (sortOrder st))
               (getProcessedBooks up (st\<lparr>sortOrder := None\<rparr>))
    \<and> mset (getProcessedBooks up st) = mset (getProcessedBooks up (st\<lparr>sortOrder := None\<rparr>))
    \<and> (sortOrder st = Some (js ''asc'') \<longrightarrow>
         sorted_wrt (\<lambda>a b. up (title a) \<le> up (title b)) (getProcessedBooks up st)
         \<and> getProcessedBooks up st
             = sort_key (\<lambda>b. up (title b)) (getProcessedBooks up (st\<lparr>sortOrder := None\<rparr>)))
    \<and> (sortOrder st \<noteq> Some (js ''asc'') \<longrightarrow>
         sorted_wrt (\<lambda>a b. up (title b) \<le> up (title a)) (getProcessedBooks up st))
    \<and> (\<forall>k. filter (\<lambda>b. up (title b) = k) (getProcessedBooks up st)
           = filter (\<lambda>b. up (title b) = k) (getProcessedBooks up (st\<lparr>sortOrder := None\<rparr>)))
    \<and> (\<forall>a b. (compareTitles up (sortOrder st) a b = 0 \<longleftrightarrow> up (title a) = up (title b))
            \<and> (compareTitles up (Some (js ''asc'')) a b < 0 \<longleftrightarrow> up (title a) < up (title b))
            \<and> (sortOrder st \<noteq> Some (js ''asc'') \<longrightarrow>
                 compareTitles up (sortOrder st) a b
                   = - compareTitles up (Some (js ''asc'')) a b))"
proof -
  let ?src = "getProcessedBooks up (st\<lparr>sortOrder := None\<rparr>)"
  let ?cmp = "compareTitles up (sortOrder st)"
  from assms have ps: "getProcessedBooks up st = arraySort ?cmp ?src"
    by (simp add: getProcessedBooks_def Let_def)
  have sorted: "sorted_wrt (\<lambda>a b. ?cmp a b \<le> 0) (arraySort ?cmp ?src)"
    by (rule sorted_arraySort) (rule compareTitles_total, erule (1) compareTitles_trans)
  have stable: "filter (\<lambda>b. up (title b) = k) (arraySort ?cmp ?src)
                  = filter (\<lambda>b. up (title b) = k) ?src" for k
    by (rule arraySort_stable) (simp add: compareTitles_equal)
  have asc: "sortOrder st = Some (js ''asc'') \<Longrightarrow>
      sorted_wrt (\<lambda>a b. up (title a) \<le> up (title b)) (arraySort ?cmp ?src)"
    using sorted by (simp add: compareTitles_asc)
  have lib: "sortOrder st = Some (js ''asc'') \<Longrightarrow>
      arraySort ?cmp ?src = sort_key (\<lambda>b. up (title b)) ?src"
    by (rule arraySort_sort_key) (simp add: compareTitles_asc)
  have desc: "sortOrder st \<noteq> Some (js ''asc'') \<Longrightarrow>
      sorted_wrt (\<lambda>a b. up (title b) \<le> up (title a)) (arraySort ?cmp ?src)"
    using sorted by (simp add: compareTitles_desc)
  have cmp: "compareTitles up (sortOrder st) a b = 0 \<longleftrightarrow> up (title a) = up (title b)"
    "compareTitles up (Some (js ''asc'')) a b < 0 \<longleftrightarrow> up (title a) < up (title b)"
    "sortOrder st \<noteq> Some (js ''asc'') \<longrightarrow>
       compareTitles up (sortOrder st) a b = - compareTitles up (Some (js ''asc'')) a b" for a b
    by (simp_all add: compareTitles_zero compareTitles_less compareTitles_reverse)
  show ?thesis
    unfolding ps using asc lib desc stable cmp by (simp add: mset_arraySort)
qed

text \<open>
  On the sample shelf, where two titles differ by case only: in both directions the one
  that is first in the store stays first. On the shelf of the two titles with letters
  outside ASCII, ascending: the title with U+00E4, whose upper-case form begins with
  U+00C4, comes before the title with U+00D6.
\<close>

theorem getProcessedBooks_sorts_witness:
  "truthy (sortOrder sampleShelf)
   \<and> mset (getProcessedBooks toUpperLatin1 sampleShelf) = mset (bookData sampleShelf)
   \<and> sorted_wrt (\<lambda>a b. toUpperLatin1 (title a) \<le> toUpperLatin1 (title b))
        (getProcessedBooks toUpperLatin1 sampleShelf)
   \<and> filter (\<lambda>b. toUpperLatin1 (title b) = js ''DUNE'') (getProcessedBooks toUpperLatin1 sampleShelf)
       = [mkBook ''dune'' ''F. Herbert'' ''Comedy'', mkBook ''Dune'' ''Frank Herbert'' ''Technical'']
   \<and> sorted_wrt (\<lambda>a b. toUpperLatin1 (title b) \<le> toUpperLatin1 (title a))
        (getProcessedBooks toUpperLatin1 (sampleShelf\<lparr>sortOrder := Some (js ''desc'')\<rparr>))
   \<and> filter (\<lambda>b. toUpperLatin1 (title b) = js ''DUNE'')
        (getProcessedBooks toUpperLatin1 (sampleShelf\<lparr>sortOrder := Some (js ''desc'')\<rparr>))
       = [mkBook ''dune'' ''F. Herbert'' ''Comedy'', mkBook ''Dune'' ''Frank Herbert'' ''Technical'']
   \<and> truthy (sortOrder umlautShelf)
   \<and> sorted_wrt (\<lambda>a b. toUpperLatin1 (title a) \<le> toUpperLatin1 (title b))
        (getProcessedBooks toUpperLatin1 umlautShelf)
   \<and> map title (getProcessedBooks toUpperLatin1 umlautShelf) = [0xE4 # js ''ther'', 0xD6 # js ''l'']"
proof -
  have src: "getProcessedBooks toUpperLatin1 (sampleShelf\<lparr>sortOrder := None\<rparr>) = bookData sampleShelf"
    "getProcessedBooks toUpperLatin1 (sampleShelf\<lparr>sortOrder := Some (js ''desc''), sortOrder := None\<rparr>)
       = bookData sampleShelf"
    by (simp_all add: getProcessedBooks_def sampleShelf_def)
  have h1: "truthy (sortOrder sampleShelf)"
    by (simp add: sampleShelf_def)
  have h2: "truthy (sortOrder (sampleShelf\<lparr>sortOrder := Some (js ''desc'')\<rparr>))"
    by simp
  have h3: "truthy (sortOrder umlautShelf)"
    by (simp add: umlautShelf_def)
  have asc: "sortOrder sampleShelf = Some (js ''asc'')"
    by (simp add: sampleShelf_def)
  have asc3: "sortOrder umlautShelf = Some (js ''asc'')"
    by (simp add: umlautShelf_def)
  have flt: "filter (\<lambda>b. toUpperLatin1 (title b) = js ''DUNE'') (bookData sampleShelf)
       = [mkBook ''dune'' ''F. Herbert'' ''Comedy'', mkBook ''Dune'' ''Frank Herbert'' ''Technical'']"
    by (simp add: sampleShelf_def mkBook_def upper_samples)
  note up = getProcessedBooks_sorts [OF h1, of toUpperLatin1]
  note down = getProcessedBooks_sorts [OF h2, of toUpperLatin1]
  note uml = getProcessedBooks_sorts [OF h3, of toUpperLatin1]
  have u1: "mset (getProcessedBooks toUpperLatin1 sampleShelf)
      = mset (getProcessedBooks toUpperLatin1 (sampleShelf\<lparr>sortOrder := None\<rparr>))"
    using up by blast
  have u2: "sorted_wrt (\<lambda>a b. toUpperLatin1 (title a) \<le> toUpperLatin1 (title b))
      (getProcessedBooks toUpperLatin1 sampleShelf)"
    using up asc by blast
  have u3: "filter (\<lambda>b. toUpperLatin1 (title b) = js ''DUNE'') (getProcessedBooks toUpperLatin1 sampleShelf)
       = filter (\<lambda>b. toUpperLatin1 (title b) = js ''DUNE'')
           (getProcessedBooks toUpperLatin1 (sampleShelf\<lparr>sortOrder := None\<rparr>))"
    using up by blast
  have "sortOrder (sampleShelf\<lparr>sortOrder := Some (js ''desc'')\<rparr>) \<noteq> Some (js ''asc'')"
    by simp
  then have d2: "sorted_wrt (\<lambda>a b. toUpperLatin1 (title b) \<le> toUpperLatin1 (title a))
        (getProcessedBooks toUpperLatin1 (sampleShelf\<lparr>sortOrder := Some (js ''desc'')\<rparr>))"
    using down by blast
  have d3: "filter (\<lambda>b. toUpperLatin1 (title b) = js ''DUNE'')
        (getProcessedBooks toUpperLatin1 (sampleShelf\<lparr>sortOrder := Some (js ''desc'')\<rparr>))
       = filter (\<lambda>b. toUpperLatin1 (title b) = js ''DUNE'')
           (getProcessedBooks toUpperLatin1
              (sampleShelf\<lparr>sortOrder := Some (js ''desc''), sortOrder := None\<rparr>))"
    using down by blast
  have m2: "sorted_wrt (\<lambda>a b. toUpperLatin1 (title a) \<le> toUpperLatin1 (title b))
      (getProcessedBooks toUpperLatin1 umlautShelf)"
    using uml asc3 by blast
  have m3: "map title (getProcessedBooks toUpperLatin1 umlautShelf) = [0xE4 # js ''ther'', 0xD6 # js ''l'']"
    by (simp add: getProcessedBooks_def umlautShelf_def arraySort_def compareTitles_def
        toUpperLatin1_def toUpperUnit_def js_def Let_def)
  show ?thesis
    using h1 h3 u1 u2 u3 d2 d3 m2 m3 by (simp only: src flt simp_thms)
qed

text \<open>
  C8. On the heap, \<^verbatim>\<open>getProcessedBooks\<close> writes only arrays that it has made itself. The
  variable \<^verbatim>\<open>bookData\<close> refers to the same array as before, every array that was there
  before has its old content, the book objects are the same, and so are the filter value,
  the sort state and the rest of the document: the page state is unchanged. The result is a
  new array, at an address that was not in use, and it holds the projection: its elements
  are references from the store array, to the same book objects. Whatever is written to
  the result array afterwards, the page state, with the store in it, stays the same.
\<close>

theorem getProcessedBooks_pure:
  assumes "bookDataRef m < length (arrays m)"
  shows "case getProcessedBooksHeap up m of (r, m') \<Rightarrow>
           bookDataRef m' = bookDataRef m \<and> objects m' = objects m
         \<and> sortOrder m' = sortOrder m \<and> filterValue m' = filterValue m
         \<and> sortText m' = sortText m \<and> bookGrid m' = bookGrid m
         \<and> take (length (arrays m)) (arrays m') = arrays m
         \<and> pageOf m' = pageOf m
         \<and> length (arrays m) \<le> r \<and> r < length (arrays m')
         \<and> readArray m' r = getProcessedBooks up (pageOf m)
         \<and> set (arrays m' ! r) \<subseteq> set (arrays m ! bookDataRef m)
         \<and> (\<forall>xs. pageOf (m'\<lparr>arrays := (arrays m')[r := xs]\<rparr>) = pageOf m)"
  using assms
  by (auto simp: getProcessedBooksHeap_def allocArray_def Let_def readArray_def pageOf_def
      getProcessedBooks_def nth_append filter_map comp_def map_arraySort set_arraySort)

text \<open>
  On the sample heap, with a filter and a sort state set: the result is the third array,
  sorted; the store, the first array, is as it was.
\<close>

theorem getProcessedBooks_pure_witness:
  "bookDataRef sampleHeap < length (arrays sampleHeap)
   \<and> fst (getProcessedBooksHeap toUpperLatin1 sampleHeap) = 2
   \<and> arrays (snd (getProcessedBooksHeap toUpperLatin1 sampleHeap)) ! bookDataRef sampleHeap
       = [0, 1, 2, 3]
   \<and> arrays (snd (getProcessedBooksHeap toUpperLatin1 sampleHeap)) ! 2 = [1, 3, 2]
   \<and> pageOf (snd (getProcessedBooksHeap toUpperLatin1 sampleHeap)) = pageOf sampleHeap"
proof -
  have h: "bookDataRef sampleHeap < length (arrays sampleHeap)"
    by (simp add: sampleHeap_def)
  have ev: "fst (getProcessedBooksHeap toUpperLatin1 sampleHeap) = 2"
    "arrays (snd (getProcessedBooksHeap toUpperLatin1 sampleHeap)) ! bookDataRef sampleHeap
       = [0, 1, 2, 3]"
    "arrays (snd (getProcessedBooksHeap toUpperLatin1 sampleHeap)) ! 2 = [1, 3, 2]"
    using order_samples(2)
    by (simp_all add: getProcessedBooksHeap_def allocArray_def sampleHeap_def sampleShelf_def
        mkBook_def arraySort_def compareTitles_def upper_samples Let_def)
  from getProcessedBooks_pure [OF h, of toUpperLatin1]
  have "pageOf (snd (getProcessedBooksHeap toUpperLatin1 sampleHeap)) = pageOf sampleHeap"
    by (simp add: split_beta)
  with h ev show ?thesis by simp
qed

end
